theory Spec2Isabelle
  imports Complex_Main "HOL-Library.Sublist" "HOL-Library.List_Lexorder" "HOL-Library.Char_ord"
begin

section \<open>The deployment manager: data model\<close>

text \<open>
  The two scripts \<^verbatim>\<open>deploy-frontend/scripts/deploy.py\<close> and
  \<^verbatim>\<open>deploy-frontend/scripts/cleanup.py\<close> act on the file system, on the table of
  bound TCP ports, on the clock and on the docker command line. All of that is one
  explicit \<open>world\<close>; every function of the scripts takes the world and returns the new
  one next to its result, and every \<^verbatim>\<open>raise\<close> is a value of type \<open>error\<close>.

  A \<^verbatim>\<open>pathlib.Path\<close> is modelled by its parts: an absolute, resolved path is the list
  of its components, the root being the empty list. A deployment id and a file name are
  one component each, which is what \<^verbatim>\<open>generate_project_id\<close> produces; symbolic links,
  permissions and partially completed copies are not modelled.
\<close>

type_synonym path = "string list"

datatype node = File string | Dir

type_synonym filesystem = "(path \<times> node) list"

text \<open>The exceptions the scripts raise or let through, by their Python class.\<close>

datatype error =
    ValueError_source_missing
  | RuntimeError_no_port
  | RuntimeError_no_compose
  | OverflowError
  | OSError
  | FileNotFoundError
  | FileExistsError
  | NotADirectoryError
  | IsADirectoryError
  | ShutilError
  | CalledProcessError int
  | JSONDecodeError
  | KeyError string
  | TypeError

text \<open>
  The commands that change the proxy: \<^verbatim>\<open>docker-compose up -d\<close> run in a working
  directory, and \<^verbatim>\<open>docker exec nginx-web nginx -s reload\<close>. The query
  \<^verbatim>\<open>docker ps\<close> changes nothing and is not logged.
\<close>

datatype command = ComposeUp path | NginxReload

text \<open>A JSON value of a record file, and the dictionary \<^verbatim>\<open>deploy_info\<close>.\<close>

datatype jvalue = JStr string | JInt int

type_synonym jdict = "(string \<times> jvalue) list"

text \<open>
  What the scripts print. The messages are Chinese text in the source; each constructor
  stands for one message (the usage text, the success report of \<^verbatim>\<open>deploy.py\<close> and
  an entry of the listing take several \<^verbatim>\<open>print\<close> calls each) and carries the values
  the f-strings interpolate.
\<close>

datatype line =
    Msg_usage
  | Msg_starting_nginx
  | Msg_reloading_nginx
  | Msg_deploy_ok jdict
  | Msg_deploy_failed error
  | Msg_project_missing string
  | Msg_removing_html string
  | Msg_removing_conf string
  | Msg_cleanup_done string
  | Msg_cleanup_failed error
  | Msg_no_deployments
  | Msg_listing_header
  | Msg_listing_entry jvalue jvalue jvalue jvalue
  | Msg_cleaning string

text \<open>
  The world. \<open>fs\<close>, \<open>stdout\<close> and \<open>cmds\<close> are changed by the scripts; the other
  fields are what the operating system answers: the working directory of the process,
  whether a port can be bound now, the
  readings of \<^verbatim>\<open>time.time()\<close> and \<^verbatim>\<open>time.strftime\<close>, the address of the
  outbound interface (\<open>None\<close> when the probe of \<^verbatim>\<open>get_local_ip\<close> raises), and the
  output of \<^verbatim>\<open>docker ps\<close> and the exit status of a command, each depending on the
  commands issued before.
\<close>

record world =
  fs :: filesystem
  cwd :: path
  stdout :: "line list"
  cmds :: "command list"
  bindable :: "int \<Rightarrow> bool"
  time_now :: real
  strftime_now :: string
  outbound_ip :: "string option"
  docker_ps :: "command list \<Rightarrow> string"
  exit_code :: "command list \<Rightarrow> command \<Rightarrow> int"

definition print :: "world \<Rightarrow> line \<Rightarrow> world" where
  "print w l = w\<lparr>stdout := stdout w @ [l]\<rparr>"

section \<open>Port allocator\<close>

text \<open>
  \<^verbatim>\<open>s.bind(('', port))\<close>: CPython refuses a port outside 0..65535 with
  OverflowError before any system call; otherwise the bind succeeds or raises OSError.
  The socket is closed when the \<^verbatim>\<open>with\<close> block is left, so the world is unchanged.
\<close>

definition socket_bind :: "world \<Rightarrow> int \<Rightarrow> error + unit" where
  "socket_bind w port =
     (if port < 0 \<or> 65535 < port then Inl OverflowError
      else if bindable w port then Inr ()
      else Inl OSError)"

text \<open>
  The loop of \<^verbatim>\<open>find_available_port\<close> over \<^verbatim>\<open>range(start_port, start_port + max_attempts)\<close>:
  only OSError is caught; the RuntimeError follows the exhausted loop.
\<close>

fun find_port_loop :: "world \<Rightarrow> int list \<Rightarrow> error + int" where
  "find_port_loop w [] = Inl RuntimeError_no_port"
| "find_port_loop w (port # ports) =
     (case socket_bind w port of
        Inr _ \<Rightarrow> Inr port
      | Inl OSError \<Rightarrow> find_port_loop w ports
      | Inl e \<Rightarrow> Inl e)"

definition find_available_port :: "world \<Rightarrow> int \<Rightarrow> int \<Rightarrow> error + int" where
  "find_available_port w start_port max_attempts =
     find_port_loop w [start_port .. start_port + max_attempts - 1]"

section \<open>File system\<close>

text \<open>
  The file system is the list of its entries, a path with its node, in the order the
  operating system would list them; the first entry of a path counts. It is well formed
  when every entry but the root lies in a directory.
\<close>

definition lookup :: "filesystem \<Rightarrow> path \<Rightarrow> node option" where
  "lookup files p = map_of files p"

definition is_file :: "filesystem \<Rightarrow> path \<Rightarrow> bool" where
  "is_file files p = (case lookup files p of Some (File _) \<Rightarrow> True | _ \<Rightarrow> False)"

definition wf_fs :: "filesystem \<Rightarrow> bool" where
  "wf_fs files = list_all (\<lambda>(p, n). p = [] \<or> lookup files (butlast p) = Some Dir) files"

text \<open>\<^verbatim>\<open>Path.exists()\<close>.\<close>

definition path_exists :: "filesystem \<Rightarrow> path \<Rightarrow> bool" where
  "path_exists files p = (lookup files p \<noteq> None)"

text \<open>
  The error of a system call on a path that does not resolve: ENOTDIR when a file stands
  where a directory is needed, ENOENT otherwise.
\<close>

definition path_error :: "filesystem \<Rightarrow> path \<Rightarrow> error" where
  "path_error files p =
     (if list_ex (is_file files) (prefixes p) then NotADirectoryError else FileNotFoundError)"

definition put_node :: "path \<Rightarrow> node \<Rightarrow> filesystem \<Rightarrow> filesystem" where
  "put_node p n files = (p, n) # filter (\<lambda>e. fst e \<noteq> p) files"

text \<open>\<^verbatim>\<open>shutil.rmtree(p)\<close>: the directory and everything below it.\<close>

definition rmtree :: "filesystem \<Rightarrow> path \<Rightarrow> error + filesystem" where
  "rmtree files p =
     (case lookup files p of
        None \<Rightarrow> Inl (path_error files p)
      | Some (File _) \<Rightarrow> Inl NotADirectoryError
      | Some Dir \<Rightarrow> Inr (filter (\<lambda>e. \<not> prefix p (fst e)) files))"

text \<open>\<^verbatim>\<open>Path.unlink()\<close>.\<close>

definition unlink :: "filesystem \<Rightarrow> path \<Rightarrow> error + filesystem" where
  "unlink files p =
     (case lookup files p of
        None \<Rightarrow> Inl (path_error files p)
      | Some Dir \<Rightarrow> Inl IsADirectoryError
      | Some (File _) \<Rightarrow> Inr (filter (\<lambda>e. fst e \<noteq> p) files))"

text \<open>
  The directories \<^verbatim>\<open>os.makedirs\<close> and \<^verbatim>\<open>Path.mkdir(parents=True)\<close> create:
  every missing prefix of the path, the path itself included.
\<close>

definition missing_dirs :: "filesystem \<Rightarrow> path \<Rightarrow> filesystem" where
  "missing_dirs files p =
     map (\<lambda>q. (q, Dir)) (filter (\<lambda>q. lookup files q = None) (prefixes p))"

text \<open>\<^verbatim>\<open>Path.mkdir(parents=True, exist_ok=True)\<close>.\<close>

definition mkdir_parents :: "filesystem \<Rightarrow> path \<Rightarrow> error + filesystem" where
  "mkdir_parents files p =
     (case lookup files p of
        Some Dir \<Rightarrow> Inr files
      | Some (File _) \<Rightarrow> Inl FileExistsError
      | None \<Rightarrow>
          if list_ex (is_file files) (prefixes p) then Inl NotADirectoryError
          else Inr (missing_dirs files p @ files))"

text \<open>\<^verbatim>\<open>Path.mkdir(exist_ok=True)\<close>: one level only.\<close>

definition mkdir_exist_ok :: "filesystem \<Rightarrow> path \<Rightarrow> error + filesystem" where
  "mkdir_exist_ok files p =
     (case lookup files p of
        Some Dir \<Rightarrow> Inr files
      | Some (File _) \<Rightarrow> Inl FileExistsError
      | None \<Rightarrow>
          (case lookup files (butlast p) of
             Some Dir \<Rightarrow> Inr ((p, Dir) # files)
           | _ \<Rightarrow> Inl (path_error files (butlast p))))"

text \<open>
  \<^verbatim>\<open>shutil.copytree(src, dst)\<close>: the source is listed, the destination is made with
  \<^verbatim>\<open>os.makedirs\<close> (it must not exist), and every entry below the source is copied to
  the same relative path below the destination. Where the destination lies inside the
  source, below a directory the source already has, the copy descends into its own
  output until the operating system refuses and \<^verbatim>\<open>shutil.Error\<close> is raised; what
  that run leaves below the destination is not modelled.
\<close>

definition copied_entries :: "filesystem \<Rightarrow> path \<Rightarrow> path \<Rightarrow> filesystem" where
  "copied_entries files src dst =
     map (\<lambda>e. (dst @ drop (length src) (fst e), snd e))
       (filter (\<lambda>e. strict_prefix src (fst e)) files)"

definition copytree :: "filesystem \<Rightarrow> path \<Rightarrow> path \<Rightarrow> error + filesystem" where
  "copytree files src dst =
     (case lookup files src of
        None \<Rightarrow> Inl (path_error files src)
      | Some (File _) \<Rightarrow> Inl NotADirectoryError
      | Some Dir \<Rightarrow>
          if path_exists files dst then Inl FileExistsError
          else if list_ex (is_file files) (prefixes dst) then Inl NotADirectoryError
          else if strict_prefix src dst \<and> path_exists files (take (Suc (length src)) dst)
            then Inl ShutilError
          else Inr (copied_entries files src dst @ missing_dirs files dst @ files))"

text \<open>\<^verbatim>\<open>Path.write_text(text)\<close>: the file is created or replaced.\<close>

definition write_text :: "filesystem \<Rightarrow> path \<Rightarrow> string \<Rightarrow> error + filesystem" where
  "write_text files p text =
     (case lookup files p of
        Some Dir \<Rightarrow> Inl IsADirectoryError
      | Some (File _) \<Rightarrow> Inr (put_node p (File text) files)
      | None \<Rightarrow>
          (case lookup files (butlast p) of
             Some Dir \<Rightarrow> Inr (put_node p (File text) files)
           | _ \<Rightarrow> Inl (path_error files (butlast p))))"

text \<open>\<^verbatim>\<open>open(p)\<close> and reading the whole file.\<close>

definition read_text :: "filesystem \<Rightarrow> path \<Rightarrow> error + string" where
  "read_text files p =
     (case lookup files p of
        Some (File text) \<Rightarrow> Inr text
      | Some Dir \<Rightarrow> Inl IsADirectoryError
      | None \<Rightarrow> Inl (path_error files p))"

text \<open>
  How the operating system walks a path that was not resolved: from a starting
  directory, component by component; every directory stepped through must exist, and
  \<^verbatim>\<open>..\<close> steps up. The result is the resolved path of the last component, which
  need not exist itself.
\<close>

fun os_walk :: "filesystem \<Rightarrow> path \<Rightarrow> string list \<Rightarrow> error + path" where
  "os_walk files cur [] = Inr cur"
| "os_walk files cur (c # cs) =
     (case lookup files cur of
        Some Dir \<Rightarrow>
          if c = ''..'' then os_walk files (butlast cur) cs else os_walk files (cur @ [c]) cs
      | Some (File _) \<Rightarrow> Inl NotADirectoryError
      | None \<Rightarrow> Inl FileNotFoundError)"

text \<open>\<^verbatim>\<open>Path.write_text\<close> on an absolute path that may hold \<^verbatim>\<open>..\<close>.\<close>

definition write_text_at :: "filesystem \<Rightarrow> path \<Rightarrow> string \<Rightarrow> error + filesystem" where
  "write_text_at files p text =
     (case os_walk files [] p of
        Inl e \<Rightarrow> Inl e
      | Inr q \<Rightarrow> write_text files q text)"


text \<open>
  The calls of \<^verbatim>\<open>cleanup.py\<close> on paths that were not resolved.
  \<^verbatim>\<open>Path.exists()\<close> is false when the walk fails.
\<close>

definition exists_at :: "filesystem \<Rightarrow> string list \<Rightarrow> bool" where
  "exists_at files p = (case os_walk files [] p of Inl _ \<Rightarrow> False | Inr q \<Rightarrow> path_exists files q)"

definition read_text_at :: "filesystem \<Rightarrow> string list \<Rightarrow> error + string" where
  "read_text_at files p = (case os_walk files [] p of Inl e \<Rightarrow> Inl e | Inr q \<Rightarrow> read_text files q)"

definition unlink_at :: "filesystem \<Rightarrow> string list \<Rightarrow> error + filesystem" where
  "unlink_at files p = (case os_walk files [] p of Inl e \<Rightarrow> Inl e | Inr q \<Rightarrow> unlink files q)"

text \<open>
  \<^verbatim>\<open>shutil.rmtree(p)\<close> on such a path: everything below the directory is removed,
  then \<^verbatim>\<open>os.rmdir(p)\<close> removes the directory itself. That last call walks the path
  again: it fails when the name alone is refused (the flag), and when the walk led
  through what has just been removed. The file system is returned in either case: a
  failure of the last call leaves the directory behind, emptied.
\<close>

definition rmtree_at :: "filesystem \<Rightarrow> string list \<Rightarrow> bool \<Rightarrow> (error + unit) \<times> filesystem" where
  "rmtree_at files p no_entry =
     (case os_walk files [] p of
        Inl e \<Rightarrow> (Inl e, files)
      | Inr q \<Rightarrow>
          (case lookup files q of
             None \<Rightarrow> (Inl FileNotFoundError, files)
           | Some (File _) \<Rightarrow> (Inl NotADirectoryError, files)
           | Some Dir \<Rightarrow>
               let emptied = filter (\<lambda>e. \<not> strict_prefix q (fst e)) files in
               if no_entry then (Inl OSError, emptied)
               else
                 (case os_walk emptied [] p of
                    Inl e \<Rightarrow> (Inl e, emptied)
                  | Inr q' \<Rightarrow> (Inr (), filter (\<lambda>e. fst e \<noteq> q') emptied))))"
section \<open>Text: numbers, paths and JSON\<close>

text \<open>
  Strings are byte strings: a character beyond ASCII is its UTF-8 bytes.
  \<open>show_int\<close> is \<^verbatim>\<open>str\<close> on an \<^verbatim>\<open>int\<close>, as the f-strings and
  \<^verbatim>\<open>json.dumps\<close> print a number.
\<close>

definition digit_char :: "nat \<Rightarrow> char" where
  "digit_char d = ''0123456789'' ! d"

fun show_nat :: "nat \<Rightarrow> string" where
  "show_nat n = (if n < 10 then [digit_char n] else show_nat (n div 10) @ [digit_char (n mod 10)])"

declare show_nat.simps [simp del]

definition show_int :: "int \<Rightarrow> string" where
  "show_int i = (if i < 0 then CHR ''-'' # show_nat (nat (- i)) else show_nat (nat i))"

definition is_digit :: "char \<Rightarrow> bool" where
  "is_digit c = (c \<in> set ''0123456789'')"

definition digit_val :: "char \<Rightarrow> nat" where
  "digit_val c = of_char c - 48"

definition read_nat :: "string \<Rightarrow> nat" where
  "read_nat ds = foldl (\<lambda>acc c. 10 * acc + digit_val c) 0 ds"

text \<open>\<^verbatim>\<open>int(x)\<close> on a float: truncation towards zero.\<close>

definition py_int :: "real \<Rightarrow> int" where
  "py_int t = (if 0 \<le> t then \<lfloor>t\<rfloor> else \<lceil>t\<rceil>)"

subsection \<open>Paths as text\<close>

text \<open>
  \<^verbatim>\<open>str(path)\<close> of an absolute path, and \<^verbatim>\<open>Path(text).resolve()\<close> against the
  working directory: empty and \<^verbatim>\<open>.\<close> components are dropped and \<^verbatim>\<open>..\<close> steps
  up, as \<^verbatim>\<open>resolve()\<close> does where no symbolic link is involved.
\<close>

definition str_of_path :: "path \<Rightarrow> string" where
  "str_of_path p = (if p = [] then ''/'' else concat (map (\<lambda>c. CHR ''/'' # c) p))"

fun split_slash :: "string \<Rightarrow> string list" where
  "split_slash [] = [[]]"
| "split_slash (c # cs) =
     (if c = CHR ''/'' then [] # split_slash cs
      else (case split_slash cs of [] \<Rightarrow> [[c]] | x # xs \<Rightarrow> (c # x) # xs))"

fun norm_parts :: "path \<Rightarrow> string list \<Rightarrow> path" where
  "norm_parts acc [] = acc"
| "norm_parts acc (c # cs) =
     (if c = [] \<or> c = ''.'' then norm_parts acc cs
      else if c = ''..'' then norm_parts (butlast acc) cs
      else norm_parts (acc @ [c]) cs)"

definition path_of_str :: "path \<Rightarrow> string \<Rightarrow> path" where
  "path_of_str dir s =
     norm_parts [] ((if s \<noteq> [] \<and> hd s = CHR ''/'' then [] else dir) @ split_slash s)"

text \<open>
  \<^verbatim>\<open>path / text\<close> of pathlib: the text is split at the slashes, empty and
  \<^verbatim>\<open>.\<close> components are dropped, \<^verbatim>\<open>..\<close> is kept, and a text that starts with a
  slash replaces the path.
\<close>

definition parts_of :: "string \<Rightarrow> string list" where
  "parts_of s = filter (\<lambda>c. c \<noteq> [] \<and> c \<noteq> ''.'') (split_slash s)"

definition joinpath :: "path \<Rightarrow> string \<Rightarrow> path" where
  "joinpath p s = (if s \<noteq> [] \<and> hd s = CHR ''/'' then parts_of s else p @ parts_of s)"

text \<open>
  \<^verbatim>\<open>Path.stem\<close>: the name without its last suffix; a name that starts with its only
  dot, or ends with a dot, has no suffix.
\<close>

definition stem :: "string \<Rightarrow> string" where
  "stem name =
     (let i = length name - 1 - length (takeWhile (\<lambda>c. c \<noteq> CHR ''.'') (rev name))
      in if CHR ''.'' \<in> set name \<and> 0 < i \<and> i < length name - 1 then take i name else name)"

subsection \<open>JSON\<close>

text \<open>
  \<^verbatim>\<open>json.dumps(d, indent=2, ensure_ascii=False)\<close> on a dictionary of strings and
  integers: every member on a line of its own, indented by two spaces; in a string the
  quote, the backslash and the control characters are escaped and nothing else.
\<close>

definition hex_char :: "nat \<Rightarrow> char" where
  "hex_char d = ''0123456789abcdef'' ! d"

definition escape_char :: "char \<Rightarrow> string" where
  "escape_char c =
     (if c = CHR 0x22 then [CHR 0x5C, CHR 0x22]
      else if c = CHR 0x5C then [CHR 0x5C, CHR 0x5C]
      else if c = CHR 0x0A then [CHR 0x5C, CHR ''n'']
      else if c = CHR 0x0D then [CHR 0x5C, CHR ''r'']
      else if c = CHR 0x09 then [CHR 0x5C, CHR ''t'']
      else if c = CHR 0x08 then [CHR 0x5C, CHR ''b'']
      else if c = CHR 0x0C then [CHR 0x5C, CHR ''f'']
      else if (of_char c :: nat) < 32 then
        [CHR 0x5C, CHR ''u'', CHR ''0'', CHR ''0'',
         hex_char (of_char c div 16), hex_char (of_char c mod 16)]
      else [c])"

definition json_string :: "string \<Rightarrow> string" where
  "json_string s = CHR 0x22 # concat (map escape_char s) @ [CHR 0x22]"

fun json_value :: "jvalue \<Rightarrow> string" where
  "json_value (JStr s) = json_string s"
| "json_value (JInt i) = show_int i"

definition json_member :: "string \<times> jvalue \<Rightarrow> string" where
  "json_member kv = ''  '' @ json_string (fst kv) @ '': '' @ json_value (snd kv)"

fun json_members :: "jdict \<Rightarrow> string" where
  "json_members [] = []"
| "json_members [kv] = json_member kv"
| "json_members (kv # kvs) = json_member kv @ [CHR '','', CHR 0x0A] @ json_members kvs"

definition json_dumps :: "jdict \<Rightarrow> string" where
  "json_dumps d =
     (if d = [] then ''{}'' else [CHR ''{'', CHR 0x0A] @ json_members d @ [CHR 0x0A, CHR ''}''])"

text \<open>
  \<^verbatim>\<open>json.load\<close>, for the documents the record store holds: one object whose values
  are strings and integers, with any white space between the tokens. A document of
  another shape (nested values, fractions, literals, escapes beyond one byte) is reported
  as a decoding error here.
\<close>

definition is_ws :: "char \<Rightarrow> bool" where
  "is_ws c = (c = CHR '' '' \<or> c = CHR 0x0A \<or> c = CHR 0x0D \<or> c = CHR 0x09)"

definition skip_ws :: "string \<Rightarrow> string" where
  "skip_ws s = dropWhile is_ws s"

definition hex_val :: "char \<Rightarrow> nat option" where
  "hex_val c =
     (let n = (of_char c :: nat) in
      if 48 \<le> n \<and> n \<le> 57 then Some (n - 48)
      else if 97 \<le> n \<and> n \<le> 102 then Some (n - 87)
      else if 65 \<le> n \<and> n \<le> 70 then Some (n - 55)
      else None)"

definition simple_escape :: "char \<Rightarrow> char option" where
  "simple_escape e =
     (if e = CHR 0x22 then Some (CHR 0x22)
      else if e = CHR 0x5C then Some (CHR 0x5C)
      else if e = CHR ''/'' then Some (CHR ''/'')
      else if e = CHR ''n'' then Some (CHR 0x0A)
      else if e = CHR ''r'' then Some (CHR 0x0D)
      else if e = CHR ''t'' then Some (CHR 0x09)
      else if e = CHR ''b'' then Some (CHR 0x08)
      else if e = CHR ''f'' then Some (CHR 0x0C)
      else None)"

definition unicode_escape :: "char \<Rightarrow> char \<Rightarrow> char \<Rightarrow> char \<Rightarrow> char option" where
  "unicode_escape a b h l =
     (case (hex_val a, hex_val b, hex_val h, hex_val l) of
        (Some x3, Some x2, Some x1, Some x0) \<Rightarrow>
          if x3 = 0 \<and> x2 = 0 \<and> 16 * x1 + x0 < 128 then Some (char_of (16 * x1 + x0))
          else None
      | _ \<Rightarrow> None)"

text \<open>The body of a string, after the opening quote, up to the closing one.\<close>

fun scan_string :: "string \<Rightarrow> (string \<times> string) option" where
  "scan_string [] = None"
| "scan_string (c # cs) =
     (if c = CHR 0x22 then Some ([], cs)
      else if c = CHR 0x5C then
        (case cs of
           [] \<Rightarrow> None
         | e # r \<Rightarrow>
             if e = CHR ''u'' then
               (case r of
                  a # b # h # l # r' \<Rightarrow>
                    (case unicode_escape a b h l of
                       None \<Rightarrow> None
                     | Some ch \<Rightarrow> map_option (\<lambda>(s, rest). (ch # s, rest)) (scan_string r'))
                | _ \<Rightarrow> None)
             else
               (case simple_escape e of
                  None \<Rightarrow> None
                | Some ch \<Rightarrow> map_option (\<lambda>(s, rest). (ch # s, rest)) (scan_string r)))
      else if (of_char c :: nat) < 32 then None
      else map_option (\<lambda>(s, rest). (c # s, rest)) (scan_string cs))"

definition scan_int :: "string \<Rightarrow> (int \<times> string) option" where
  "scan_int s =
     (let neg = (s \<noteq> [] \<and> hd s = CHR ''-'');
          body = (if neg then tl s else s);
          ds = takeWhile is_digit body;
          rest = dropWhile is_digit body
      in if ds = [] \<or> (1 < length ds \<and> hd ds = CHR ''0'') then None
         else if rest \<noteq> [] \<and> hd rest \<in> set ''.eE'' then None
         else Some (if neg then - int (read_nat ds) else int (read_nat ds), rest))"

definition scan_value :: "string \<Rightarrow> (jvalue \<times> string) option" where
  "scan_value s =
     (case s of
        [] \<Rightarrow> None
      | c # cs \<Rightarrow>
          if c = CHR 0x22 then map_option (\<lambda>(x, rest). (JStr x, rest)) (scan_string cs)
          else map_option (\<lambda>(i, rest). (JInt i, rest)) (scan_int s))"

definition scan_member :: "string \<Rightarrow> ((string \<times> jvalue) \<times> string) option" where
  "scan_member s =
     (case skip_ws s of
        [] \<Rightarrow> None
      | q # cs \<Rightarrow>
          if q \<noteq> CHR 0x22 then None
          else
            (case scan_string cs of
               None \<Rightarrow> None
             | Some (k, r1) \<Rightarrow>
                 (case skip_ws r1 of
                    [] \<Rightarrow> None
                  | c # r2 \<Rightarrow>
                      if c \<noteq> CHR '':'' then None
                      else
                        (case scan_value (skip_ws r2) of
                           None \<Rightarrow> None
                         | Some (v, r3) \<Rightarrow> Some ((k, v), skip_ws r3)))))"

lemma skip_ws_length: "length (skip_ws s) \<le> length s"
  by (simp add: skip_ws_def length_dropWhile_le)

lemma scan_string_length: "scan_string s = Some (x, rest) \<Longrightarrow> length rest < length s"
proof (induction s arbitrary: x rest rule: scan_string.induct)
  case 1
  then show ?case by simp
next
  case (2 c cs)
  then show ?case
    by (auto split: if_splits list.splits option.splits) force+
qed

lemma scan_int_length: "scan_int s = Some (i, rest) \<Longrightarrow> length rest \<le> length s"
proof -
  assume "scan_int s = Some (i, rest)"
  then have "rest = dropWhile is_digit s \<or> rest = dropWhile is_digit (tl s)"
    by (auto simp: scan_int_def Let_def split: if_splits)
  moreover have "length (dropWhile is_digit (tl s)) \<le> length (tl s)"
    by (rule length_dropWhile_le)
  ultimately show ?thesis
    by (auto simp: length_dropWhile_le intro: le_trans)
qed

lemma scan_value_length: "scan_value s = Some (v, rest) \<Longrightarrow> length rest \<le> length s"
  by (auto simp: scan_value_def split: list.splits if_splits
      dest!: scan_string_length scan_int_length)

lemma scan_member_length:
  assumes "scan_member s = Some (kv, rest)"
  shows "length rest < length s"
proof -
  from assms obtain q cs k r1 c r2 v r3 where
    s: "skip_ws s = q # cs" and k: "scan_string cs = Some (k, r1)"
    and c: "skip_ws r1 = c # r2" and v: "scan_value (skip_ws r2) = Some (v, r3)"
    and rest: "rest = skip_ws r3"
    by (auto simp: scan_member_def split: list.splits if_splits option.splits)
  have "length rest \<le> length r3" using rest skip_ws_length by simp
  also have "\<dots> \<le> length (skip_ws r2)" using scan_value_length [OF v] .
  also have "\<dots> \<le> length r2" by (rule skip_ws_length)
  also have "\<dots> < length (skip_ws r1)" using c by simp
  also have "\<dots> \<le> length r1" by (rule skip_ws_length)
  also have "\<dots> < length cs" using scan_string_length [OF k] .
  also have "\<dots> < length (skip_ws s)" using s by simp
  also have "\<dots> \<le> length s" by (rule skip_ws_length)
  finally show ?thesis .
qed

text \<open>The members of an object, up to the closing brace and the end of the document.\<close>

function scan_members :: "string \<Rightarrow> jdict option" where
  "scan_members s =
     (case scan_member s of
        None \<Rightarrow> None
      | Some (kv, rest) \<Rightarrow>
          (case rest of
             [] \<Rightarrow> None
           | c # r \<Rightarrow>
               if c = CHR '','' then map_option (Cons kv) (scan_members r)
               else if c = CHR ''}'' \<and> skip_ws r = [] then Some [kv]
               else None))"
  by pat_completeness auto
termination
  by (relation "measure length") (auto dest: scan_member_length)

declare scan_members.simps [simp del]

definition json_loads :: "string \<Rightarrow> jdict option" where
  "json_loads s =
     (case skip_ws s of
        [] \<Rightarrow> None
      | c # r \<Rightarrow>
          if c \<noteq> CHR ''{'' then None
          else
            (case skip_ws r of
               [] \<Rightarrow> None
             | c' # r' \<Rightarrow>
                 if c' = CHR ''}'' then (if skip_ws r' = [] then Some [] else None)
                 else scan_members r))"

text \<open>
  \<^verbatim>\<open>info[key]\<close> on the dictionary \<^verbatim>\<open>json.load\<close> returns: of a repeated key the
  last value counts.
\<close>

definition dict_get :: "jdict \<Rightarrow> string \<Rightarrow> error + jvalue" where
  "dict_get d key = (case map_of (rev d) key of None \<Rightarrow> Inl (KeyError key) | Some v \<Rightarrow> Inr v)"

subsection \<open>Paths that are not resolved\<close>

text \<open>
  A \<^verbatim>\<open>Path\<close> of pathlib as \<^verbatim>\<open>cleanup.py\<close> uses it, never resolved: whether it
  is absolute, and its parts, with \<^verbatim>\<open>..\<close> kept. \<^verbatim>\<open>Path('')\<close> is the relative
  path without parts, printed as a dot.
\<close>

datatype pure_path = PurePath bool "string list"

definition Path :: "string \<Rightarrow> pure_path" where
  "Path s = PurePath (s \<noteq> [] \<and> hd s = CHR ''/'') (parts_of s)"

text \<open>\<^verbatim>\<open>path / text\<close>.\<close>

definition truediv :: "pure_path \<Rightarrow> string \<Rightarrow> pure_path" where
  "truediv p s =
     (case p of PurePath absolute parts \<Rightarrow>
        if s \<noteq> [] \<and> hd s = CHR ''/'' then Path s else PurePath absolute (parts @ parts_of s))"

text \<open>\<^verbatim>\<open>str(path)\<close>.\<close>

fun join_slash :: "string list \<Rightarrow> string" where
  "join_slash [] = []"
| "join_slash [c] = c"
| "join_slash (c # cs) = c @ CHR ''/'' # join_slash cs"

definition path_str :: "pure_path \<Rightarrow> string" where
  "path_str p =
     (case p of PurePath absolute parts \<Rightarrow>
        if absolute then CHR ''/'' # join_slash parts
        else if parts = [] then ''.'' else join_slash parts)"

text \<open>
  The components the operating system walks for a path, from the root: a relative path
  starts in the working directory of the process.
\<close>

definition os_parts :: "path \<Rightarrow> pure_path \<Rightarrow> string list" where
  "os_parts dir p = (case p of PurePath absolute parts \<Rightarrow> if absolute then parts else dir @ parts)"

text \<open>
  Whether \<^verbatim>\<open>os.rmdir\<close> refuses the path by its name alone: the root, the dot, and a
  path that ends in \<^verbatim>\<open>..\<close>.
\<close>

definition names_no_entry :: "pure_path \<Rightarrow> bool" where
  "names_no_entry p = (case p of PurePath absolute parts \<Rightarrow> parts = [] \<or> last parts = ''..'')"
section \<open>deploy.py\<close>

definition DEFAULT_NGINX_BASE_DIR :: path where
  "DEFAULT_NGINX_BASE_DIR = [''home'', ''xubuntu001'', ''AI'', ''nginx'']"

text \<open>\<^verbatim>\<open>get_local_ip\<close>: any exception of the probe gives \<^verbatim>\<open>localhost\<close>.\<close>

definition get_local_ip :: "world \<Rightarrow> string" where
  "get_local_ip w = (case outbound_ip w of Some ip \<Rightarrow> ip | None \<Rightarrow> ''localhost'')"

text \<open>\<^verbatim>\<open>generate_project_id\<close>: the clock in whole seconds.\<close>

definition generate_project_id :: "world \<Rightarrow> string" where
  "generate_project_id w = ''project-'' @ show_int (py_int (time_now w))"

text \<open>
  The text \<^verbatim>\<open>create_nginx_conf\<close> renders, line by line; the two comment lines of the
  source are Chinese and stand here as their UTF-8 bytes.
\<close>

definition unlines :: "string list \<Rightarrow> string" where
  "unlines ls = concat (map (\<lambda>l. l @ [CHR 0x0A]) ls)"

definition config_lines :: "string \<Rightarrow> int \<Rightarrow> string list" where
  "config_lines project_id port =
     [''server {'',
      ''    listen '' @ show_int port @ '';'',
      ''    server_name localhost;'',
      '''',
      ''    root /usr/share/nginx/html/'' @ project_id @ '';'',
      ''    index index.html index.htm;'',
      '''',
      ''    location / {'',
      ''        try_files $uri $uri/ /index.html;'',
      ''    }'',
      '''',
      ''    # '' @ [CHR 0xE5, CHR 0x90, CHR 0xAF, CHR 0xE7, CHR 0x94, CHR 0xA8] @ '' gzip ''
        @ [CHR 0xE5, CHR 0x8E, CHR 0x8B, CHR 0xE7, CHR 0xBC, CHR 0xA9],
      ''    gzip on;'',
      ''    gzip_types text/plain text/css application/json application/javascript text/xml application/xml text/javascript;'',
      '''',
      ''    # '' @ [CHR 0xE7, CHR 0xBC, CHR 0x93, CHR 0xE5, CHR 0xAD, CHR 0x98, CHR 0xE9, CHR 0x9D,
                 CHR 0x99, CHR 0xE6, CHR 0x80, CHR 0x81, CHR 0xE8, CHR 0xB5, CHR 0x84, CHR 0xE6,
                 CHR 0xBA, CHR 0x90],
      ''    location ~* '' @ [CHR 0x5C]
        @ ''.(jpg|jpeg|png|gif|ico|css|js|svg|woff|woff2|ttf|eot)$ {'',
      ''        expires 1y;'',
      ''        add_header Cache-Control '' @ [CHR 0x22] @ ''public, immutable'' @ [CHR 0x22] @ '';'',
      ''    }'',
      ''}'']"

definition config_content :: "string \<Rightarrow> int \<Rightarrow> string" where
  "config_content project_id port = unlines (config_lines project_id port)"

text \<open>
  \<^verbatim>\<open>create_nginx_conf\<close>: the directory \<^verbatim>\<open>config/conf.d\<close> is made with its
  parents, the file \<^verbatim>\<open>conf_dir / f"{project_id}.conf"\<close> is written, its path is
  returned. The id is whatever the caller passes: with a slash in it the join yields
  more than one component, and the directories between are not made.
\<close>

definition create_nginx_conf :: "world \<Rightarrow> string \<Rightarrow> int \<Rightarrow> path \<Rightarrow> (error + path) \<times> world" where
  "create_nginx_conf w project_id port nginx_base_dir =
     (let conf_dir = nginx_base_dir @ [''config'', ''conf.d''] in
      case mkdir_parents (fs w) conf_dir of
        Inl e \<Rightarrow> (Inl e, w)
      | Inr files1 \<Rightarrow>
          let conf_file = joinpath conf_dir (project_id @ ''.conf'') in
          (case write_text_at files1 conf_file (config_content project_id port) of
             Inl e \<Rightarrow> (Inl e, w\<lparr>fs := files1\<rparr>)
           | Inr files2 \<Rightarrow> (Inr conf_file, w\<lparr>fs := files2\<rparr>)))"

text \<open>
  \<^verbatim>\<open>subprocess.run(..., check=True)\<close>: the command is issued; a non-zero exit status
  raises CalledProcessError.
\<close>

definition run_checked :: "world \<Rightarrow> command \<Rightarrow> (error + unit) \<times> world" where
  "run_checked w c =
     (let rc = exit_code w (cmds w) c; w' = w\<lparr>cmds := cmds w @ [c]\<rparr>
      in if rc = 0 then (Inr (), w') else (Inl (CalledProcessError rc), w'))"

text \<open>
  \<^verbatim>\<open>reload_nginx\<close>: without the compose file it raises; otherwise it asks
  \<^verbatim>\<open>docker ps\<close> for the container and starts the topology when the name is not in
  the output, and signals a reload when it is.
\<close>

definition reload_nginx :: "world \<Rightarrow> path \<Rightarrow> (error + unit) \<times> world" where
  "reload_nginx w nginx_base_dir =
     (let compose_file = nginx_base_dir @ [''docker-compose.yml''] in
      if \<not> path_exists (fs w) compose_file then (Inl RuntimeError_no_compose, w)
      else if \<not> sublist ''nginx-web'' (docker_ps w (cmds w)) then
        run_checked (print w Msg_starting_nginx) (ComposeUp nginx_base_dir)
      else run_checked (print w Msg_reloading_nginx) NginxReload)"

text \<open>
  Staging, lines 131 to 135 of \<^verbatim>\<open>deploy_frontend\<close>: a directory already at
  \<^verbatim>\<open>html/<id>\<close> is removed, then the source tree is copied there.
\<close>

definition stage_assets :: "filesystem \<Rightarrow> path \<Rightarrow> path \<Rightarrow> (error + unit) \<times> filesystem" where
  "stage_assets files source_path html_dir =
     (if path_exists files html_dir then
        (case rmtree files html_dir of
           Inl e \<Rightarrow> (Inl e, files)
         | Inr files1 \<Rightarrow>
             (case copytree files1 source_path html_dir of
                Inl e \<Rightarrow> (Inl e, files1)
              | Inr files2 \<Rightarrow> (Inr (), files2)))
      else
        (case copytree files source_path html_dir of
           Inl e \<Rightarrow> (Inl e, files)
         | Inr files2 \<Rightarrow> (Inr (), files2)))"

text \<open>The dictionary \<^verbatim>\<open>deploy_info\<close>, in the order of the source.\<close>

definition deploy_info :: "string \<Rightarrow> int \<Rightarrow> string \<Rightarrow> path \<Rightarrow> path \<Rightarrow> path \<Rightarrow> string \<Rightarrow> jdict" where
  "deploy_info project_id port url html_dir conf_file source_path deployed_at =
     [(''project_id'', JStr project_id),
      (''port'', JInt port),
      (''url'', JStr url),
      (''html_dir'', JStr (str_of_path html_dir)),
      (''conf_file'', JStr (str_of_path conf_file)),
      (''source_dir'', JStr (str_of_path source_path)),
      (''deployed_at'', JStr deployed_at)]"

text \<open>
  The last step of \<^verbatim>\<open>deploy_frontend\<close>: the directory \<^verbatim>\<open>deployments\<close> is made
  (one level) and the record is written as JSON.
\<close>

definition save_record :: "world \<Rightarrow> path \<Rightarrow> string \<Rightarrow> jdict \<Rightarrow> (error + jdict) \<times> world" where
  "save_record w nginx_base_dir project_id info =
     (let deployments_dir = nginx_base_dir @ [''deployments''] in
      case mkdir_exist_ok (fs w) deployments_dir of
        Inl e \<Rightarrow> (Inl e, w)
      | Inr files1 \<Rightarrow>
          let info_file = deployments_dir @ [project_id @ ''.json''] in
          (case write_text files1 info_file (json_dumps info) of
             Inl e \<Rightarrow> (Inl e, w\<lparr>fs := files1\<rparr>)
           | Inr files2 \<Rightarrow> (Inr info, w\<lparr>fs := files2\<rparr>)))"

text \<open>
  \<^verbatim>\<open>deploy_frontend\<close>. The steps follow the source: the source directory is resolved
  and must exist; the id is generated; a port is found from 8080 in 100 attempts; the
  assets are staged; the configuration is written; the proxy is reloaded; the URL is
  computed; the record is saved. An exception of a step ends the function at that step.
  The id is the generated one, \<^verbatim>\<open>project-\<close> and a number, so each join with it
  appends one component.
\<close>

definition deploy_frontend :: "world \<Rightarrow> string \<Rightarrow> string option \<Rightarrow> (error + jdict) \<times> world" where
  "deploy_frontend w source_dir nginx_base_dir_arg =
     (let source_path = path_of_str (cwd w) source_dir in
      if \<not> path_exists (fs w) source_path then (Inl ValueError_source_missing, w)
      else
        let nginx_base_dir =
              (case nginx_base_dir_arg of
                 None \<Rightarrow> DEFAULT_NGINX_BASE_DIR
               | Some s \<Rightarrow> path_of_str (cwd w) s);
            project_id = generate_project_id w
        in
        case find_available_port w 8080 100 of
          Inl e \<Rightarrow> (Inl e, w)
        | Inr port \<Rightarrow>
            let html_dir = nginx_base_dir @ [''html'', project_id] in
            (case stage_assets (fs w) source_path html_dir of
               (Inl e, files1) \<Rightarrow> (Inl e, w\<lparr>fs := files1\<rparr>)
             | (Inr _, files1) \<Rightarrow>
                 (case create_nginx_conf (w\<lparr>fs := files1\<rparr>) project_id port nginx_base_dir of
                    (Inl e, w2) \<Rightarrow> (Inl e, w2)
                  | (Inr conf_file, w2) \<Rightarrow>
                      (case reload_nginx w2 nginx_base_dir of
                         (Inl e, w3) \<Rightarrow> (Inl e, w3)
                       | (Inr _, w3) \<Rightarrow>
                           let local_ip = get_local_ip w3;
                               url = ''http://'' @ local_ip @ '':'' @ show_int port
                           in save_record w3 nginx_base_dir project_id
                                (deploy_info project_id port url html_dir conf_file
                                   source_path (strftime_now w3))))))"

text \<open>
  \<^verbatim>\<open>main\<close> of \<^verbatim>\<open>deploy.py\<close>, on the arguments after the script name; the result
  is the exit status of the process.
\<close>

definition deploy_main :: "world \<Rightarrow> string list \<Rightarrow> int \<times> world" where
  "deploy_main w argv =
     (case argv of
        [] \<Rightarrow> (1, print w Msg_usage)
      | source_dir # rest \<Rightarrow>
          let nginx_base_dir = (case rest of [] \<Rightarrow> None | b # _ \<Rightarrow> Some b) in
          (case deploy_frontend w source_dir nginx_base_dir of
             (Inr info, w') \<Rightarrow> (0, print w' (Msg_deploy_ok info))
           | (Inl e, w') \<Rightarrow> (1, print w' (Msg_deploy_failed e))))"



definition record_file :: "path \<Rightarrow> string \<Rightarrow> path" where
  "record_file nginx_base_dir project_id = nginx_base_dir @ [''deployments'', project_id @ ''.json'']"

section \<open>cleanup.py\<close>

text \<open>
  \<^verbatim>\<open>cleanup.py\<close> does not resolve its paths: the base directory is
  \<^verbatim>\<open>Path(nginx_base_dir)\<close>, and the paths of a record are \<^verbatim>\<open>Path(info[key])\<close>;
  the operating system walks each of them at every call.
\<close>

definition base_path :: "pure_path option \<Rightarrow> pure_path" where
  "base_path nginx_base_dir =
     (case nginx_base_dir of
        None \<Rightarrow> PurePath True DEFAULT_NGINX_BASE_DIR
      | Some p \<Rightarrow> p)"

text \<open>\<^verbatim>\<open>open(info_file)\<close> and \<^verbatim>\<open>json.load\<close>.\<close>

definition load_record :: "filesystem \<Rightarrow> string list \<Rightarrow> error + jdict" where
  "load_record files info_file =
     (case read_text_at files info_file of
        Inl e \<Rightarrow> Inl e
      | Inr text \<Rightarrow> (case json_loads text of None \<Rightarrow> Inl JSONDecodeError | Some info \<Rightarrow> Inr info))"

text \<open>\<^verbatim>\<open>Path(info[key])\<close>: the value must be a string.\<close>

definition dict_path :: "jdict \<Rightarrow> string \<Rightarrow> error + pure_path" where
  "dict_path d key =
     (case dict_get d key of
        Inl e \<Rightarrow> Inl e
      | Inr (JInt _) \<Rightarrow> Inl TypeError
      | Inr (JStr s) \<Rightarrow> Inr (Path s))"

text \<open>The two removals of \<^verbatim>\<open>cleanup_deployment\<close>, each guarded by \<^verbatim>\<open>exists()\<close>.\<close>

definition remove_html :: "world \<Rightarrow> pure_path \<Rightarrow> (error + unit) \<times> world" where
  "remove_html w html_dir =
     (if exists_at (fs w) (os_parts (cwd w) html_dir) then
        (let w1 = print w (Msg_removing_html (path_str html_dir)) in
         case rmtree_at (fs w1) (os_parts (cwd w1) html_dir) (names_no_entry html_dir) of
           (Inl e, files) \<Rightarrow> (Inl e, w1\<lparr>fs := files\<rparr>)
         | (Inr _, files) \<Rightarrow> (Inr (), w1\<lparr>fs := files\<rparr>))
      else (Inr (), w))"

definition remove_conf :: "world \<Rightarrow> pure_path \<Rightarrow> (error + unit) \<times> world" where
  "remove_conf w conf_file =
     (if exists_at (fs w) (os_parts (cwd w) conf_file) then
        (let w1 = print w (Msg_removing_conf (path_str conf_file)) in
         case unlink_at (fs w1) (os_parts (cwd w1) conf_file) of
           Inl e \<Rightarrow> (Inl e, w1)
         | Inr files \<Rightarrow> (Inr (), w1\<lparr>fs := files\<rparr>))
      else (Inr (), w))"

text \<open>
  The reload of \<^verbatim>\<open>cleanup_deployment\<close>, lines 50 to 55: the message is printed and
  the reload signal is sent, whatever the state of the container.
\<close>

definition cleanup_reload :: "world \<Rightarrow> (error + unit) \<times> world" where
  "cleanup_reload w = run_checked (print w Msg_reloading_nginx) NginxReload"

text \<open>
  The body of the \<^verbatim>\<open>try\<close> block of \<^verbatim>\<open>cleanup_deployment\<close>: the record is
  loaded, the staged directory and the configuration file are removed, the proxy is
  reloaded, and last the record file is deleted.
\<close>

definition cleanup_steps :: "world \<Rightarrow> string \<Rightarrow> pure_path \<Rightarrow> (error + unit) \<times> world" where
  "cleanup_steps w project_id info_file =
     (case load_record (fs w) (os_parts (cwd w) info_file) of
        Inl e \<Rightarrow> (Inl e, w)
      | Inr info \<Rightarrow>
          (case dict_path info ''html_dir'' of
             Inl e \<Rightarrow> (Inl e, w)
           | Inr html_dir \<Rightarrow>
               (case remove_html w html_dir of
                  (Inl e, w1) \<Rightarrow> (Inl e, w1)
                | (Inr _, w1) \<Rightarrow>
                    (case dict_path info ''conf_file'' of
                       Inl e \<Rightarrow> (Inl e, w1)
                     | Inr conf_file \<Rightarrow>
                         (case remove_conf w1 conf_file of
                            (Inl e, w2) \<Rightarrow> (Inl e, w2)
                          | (Inr _, w2) \<Rightarrow>
                              (case cleanup_reload w2 of
                                 (Inl e, w3) \<Rightarrow> (Inl e, w3)
                               | (Inr _, w3) \<Rightarrow>
                                   (case unlink_at (fs w3) (os_parts (cwd w3) info_file) of
                                      Inl e \<Rightarrow> (Inl e, w3)
                                    | Inr files \<Rightarrow>
                                        (Inr (), print (w3\<lparr>fs := files\<rparr>)
                                           (Msg_cleanup_done project_id)))))))))"

text \<open>
  \<^verbatim>\<open>cleanup_deployment\<close>: \<^verbatim>\<open>False\<close> with a message when the record file does not
  exist; otherwise the steps above, any exception of which is caught, reported and
  answered with \<^verbatim>\<open>False\<close>. The base directory is \<^verbatim>\<open>None\<close> or a path.
\<close>

definition cleanup_deployment :: "world \<Rightarrow> string \<Rightarrow> pure_path option \<Rightarrow> bool \<times> world" where
  "cleanup_deployment w project_id nginx_base_dir =
     (let deployments_dir = truediv (base_path nginx_base_dir) ''deployments'';
          info_file = truediv deployments_dir (project_id @ ''.json'')
      in
      if \<not> exists_at (fs w) (os_parts (cwd w) info_file) then
        (False, print w (Msg_project_missing project_id))
      else
        (case cleanup_steps w project_id info_file of
           (Inr _, w') \<Rightarrow> (True, w')
         | (Inl e, w') \<Rightarrow> (False, print w' (Msg_cleanup_failed e))))"

text \<open>
  \<^verbatim>\<open>deployments_dir.glob("*.json")\<close>: the names in the directory that end in
  \<^verbatim>\<open>.json\<close>, in the order of the directory listing, which is read once, when the
  iteration begins.
\<close>

definition glob_json :: "filesystem \<Rightarrow> path \<Rightarrow> string list" where
  "glob_json files dir =
     filter (\<lambda>name. suffix ''.json'' name)
       (map (\<lambda>e. last (fst e)) (filter (\<lambda>e. fst e \<noteq> [] \<and> butlast (fst e) = dir) files))"

definition glob_json_at :: "filesystem \<Rightarrow> string list \<Rightarrow> string list" where
  "glob_json_at files p = (case os_walk files [] p of Inl _ \<Rightarrow> [] | Inr q \<Rightarrow> glob_json files q)"

text \<open>
  \<^verbatim>\<open>cleanup_all\<close>: every record file found at the start is cleaned in turn; the
  result of \<^verbatim>\<open>cleanup_deployment\<close> is not looked at.
\<close>

fun cleanup_each :: "world \<Rightarrow> pure_path \<Rightarrow> string list \<Rightarrow> world" where
  "cleanup_each w nginx_base_dir [] = w"
| "cleanup_each w nginx_base_dir (name # names) =
     (let project_id = stem name;
          w1 = print w (Msg_cleaning project_id)
      in cleanup_each (snd (cleanup_deployment w1 project_id (Some nginx_base_dir)))
           nginx_base_dir names)"

definition cleanup_all :: "world \<Rightarrow> pure_path option \<Rightarrow> world" where
  "cleanup_all w nginx_base_dir =
     (let deployments_dir = truediv (base_path nginx_base_dir) ''deployments'' in
      if \<not> exists_at (fs w) (os_parts (cwd w) deployments_dir) then print w Msg_no_deployments
      else cleanup_each w (base_path nginx_base_dir)
             (glob_json_at (fs w) (os_parts (cwd w) deployments_dir)))"

text \<open>
  \<^verbatim>\<open>list_deployments\<close>: the records in the order of their file names; an exception
  of reading a record is not caught.
\<close>

definition dict_get_default :: "jdict \<Rightarrow> string \<Rightarrow> jvalue \<Rightarrow> jvalue" where
  "dict_get_default d key v = (case dict_get d key of Inl _ \<Rightarrow> v | Inr x \<Rightarrow> x)"

fun list_each :: "world \<Rightarrow> string list \<Rightarrow> string list \<Rightarrow> (error + unit) \<times> world" where
  "list_each w dir [] = (Inr (), w)"
| "list_each w dir (name # names) =
     (case load_record (fs w) (dir @ [name]) of
        Inl e \<Rightarrow> (Inl e, w)
      | Inr info \<Rightarrow>
          (case dict_get info ''project_id'' of
             Inl e \<Rightarrow> (Inl e, w)
           | Inr project_id \<Rightarrow>
               (case dict_get info ''url'' of
                  Inl e \<Rightarrow> (Inl e, w)
                | Inr url \<Rightarrow>
                    (case dict_get info ''html_dir'' of
                       Inl e \<Rightarrow> (Inl e, w)
                     | Inr html_dir \<Rightarrow>
                         list_each
                           (print w
                              (Msg_listing_entry project_id
                                 (dict_get_default info ''deployed_at'' (JStr ''N/A'')) url html_dir))
                           dir names))))"

definition list_deployments :: "world \<Rightarrow> pure_path option \<Rightarrow> (error + unit) \<times> world" where
  "list_deployments w nginx_base_dir =
     (let deployments_dir = os_parts (cwd w) (truediv (base_path nginx_base_dir) ''deployments'') in
      if \<not> exists_at (fs w) deployments_dir \<or> glob_json_at (fs w) deployments_dir = [] then
        (Inr (), print w Msg_no_deployments)
      else list_each (print w Msg_listing_header) deployments_dir
             (sort (glob_json_at (fs w) deployments_dir)))"

text \<open>
  \<^verbatim>\<open>main\<close> of \<^verbatim>\<open>cleanup.py\<close>, on the arguments after the script name. Only the
  missing argument calls \<^verbatim>\<open>sys.exit(1)\<close>; an exception that reaches the top ends the
  process with status 1; otherwise the function returns and the status is 0: what
  \<^verbatim>\<open>cleanup_deployment\<close> returns is dropped.
\<close>

definition cleanup_main :: "world \<Rightarrow> string list \<Rightarrow> int \<times> world" where
  "cleanup_main w argv =
     (case argv of
        [] \<Rightarrow> (1, print w Msg_usage)
      | command # rest \<Rightarrow>
          let nginx_base_dir = (case rest of [] \<Rightarrow> None | b # _ \<Rightarrow> Some (Path b)) in
          if command = ''list'' then
            (case list_deployments w nginx_base_dir of
               (Inl e, w') \<Rightarrow> (1, w')
             | (Inr _, w') \<Rightarrow> (0, w'))
          else if command = ''all'' then (0, cleanup_all w nginx_base_dir)
          else (0, snd (cleanup_deployment w command nginx_base_dir)))"
section \<open>Concrete worlds\<close>

text \<open>A world with an empty root directory in which no port can be bound.\<close>

definition world_busy :: world where
  "world_busy =
     \<lparr>fs = [([], Dir)], cwd = [], stdout = [], cmds = [], bindable = (\<lambda>_. False),
      time_now = 0, strftime_now = ''1970-01-01 00:00:00'', outbound_ip = None,
      docker_ps = (\<lambda>_. ''''), exit_code = (\<lambda>_ _. 0)\<rparr>"

text \<open>The same world with port 8083 free, as in the end-to-end scenario of the spec.\<close>

definition world_8083 :: world where
  "world_8083 = world_busy\<lparr>bindable := (\<lambda>p. p = 8083)\<rparr>"

text \<open>
  A host with the proxy directory \<^verbatim>\<open>/srv/nginx\<close>, its compose file, and a built site
  of three files in \<^verbatim>\<open>/work/dist\<close>; the process runs in \<^verbatim>\<open>/work\<close>, the ports
  8080 to 8082 are taken, the container is running and every command succeeds.
\<close>

definition site_fs :: filesystem where
  "site_fs =
     [([], Dir),
      ([''srv''], Dir),
      ([''srv'', ''nginx''], Dir),
      ([''srv'', ''nginx'', ''docker-compose.yml''], File ''services:''),
      ([''work''], Dir),
      ([''work'', ''dist''], Dir),
      ([''work'', ''dist'', ''index.html''], File ''<html></html>''),
      ([''work'', ''dist'', ''app.js''], File ''main()''),
      ([''work'', ''dist'', ''style.css''], File ''body {}'')]"

definition world_site :: world where
  "world_site =
     \<lparr>fs = site_fs, cwd = [''work''], stdout = [], cmds = [],
      bindable = (\<lambda>p. p \<notin> {8080, 8081, 8082}),
      time_now = 1700000000.5, strftime_now = ''2023-11-14 22:13:20'',
      outbound_ip = Some ''192.168.1.10'',
      docker_ps = (\<lambda>_. ''nginx-web''), exit_code = (\<lambda>_ _. 0)\<rparr>"

text \<open>The same host with the container stopped, and with a failing reload signal.\<close>

definition world_stopped :: world where
  "world_stopped = world_site\<lparr>docker_ps := (\<lambda>_. '''')\<rparr>"










section \<open>Port allocator: properties\<close>

lemma socket_bind_cases:
  "socket_bind w q = Inr () \<or> socket_bind w q = Inl OSError \<or> socket_bind w q = Inl OverflowError"
  by (simp add: socket_bind_def)

lemma find_port_loop_Inr:
  "find_port_loop w ports = Inr p \<longleftrightarrow>
     (\<exists>pre post. ports = pre @ p # post \<and> socket_bind w p = Inr () \<and>
        (\<forall>q \<in> set pre. socket_bind w q = Inl OSError))"
proof (induction ports)
  case Nil
  then show ?case by simp
next
  case (Cons a ports)
  consider (ok) "socket_bind w a = Inr ()" | (busy) "socket_bind w a = Inl OSError"
    | (bad) "socket_bind w a = Inl OverflowError"
    using socket_bind_cases by blast
  then show ?case
  proof cases
    case ok
    then show ?thesis
      by (auto simp: Cons_eq_append_conv)
  next
    case busy
    have "(\<exists>pre post. a # ports = pre @ p # post \<and> socket_bind w p = Inr () \<and>
        (\<forall>q \<in> set pre. socket_bind w q = Inl OSError)) \<longleftrightarrow>
      (\<exists>pre post. ports = pre @ p # post \<and> socket_bind w p = Inr () \<and>
        (\<forall>q \<in> set pre. socket_bind w q = Inl OSError))" (is "?L \<longleftrightarrow> ?R")
    proof
      assume ?L
      then obtain pre post where *: "a # ports = pre @ p # post" "socket_bind w p = Inr ()"
        "\<forall>q \<in> set pre. socket_bind w q = Inl OSError" by blast
      show ?R
      proof (cases pre)
        case Nil
        with * busy show ?thesis by simp
      next
        case (Cons b pre')
        with * have "ports = pre' @ p # post" "\<forall>q \<in> set pre'. socket_bind w q = Inl OSError"
          by auto
        with * show ?thesis by blast
      qed
    next
      assume ?R
      then obtain pre post where *: "ports = pre @ p # post" "socket_bind w p = Inr ()"
        "\<forall>q \<in> set pre. socket_bind w q = Inl OSError" by blast
      with busy have "a # ports = (a # pre) @ p # post \<and> socket_bind w p = Inr () \<and>
        (\<forall>q \<in> set (a # pre). socket_bind w q = Inl OSError)" by simp
      then show ?L by blast
    qed
    with busy Cons.IH show ?thesis by simp
  next
    case bad
    then show ?thesis
      by (auto simp: Cons_eq_append_conv)
  qed
qed

lemma find_port_loop_no_port:
  "find_port_loop w ports = Inl RuntimeError_no_port \<longleftrightarrow>
     (\<forall>q \<in> set ports. socket_bind w q = Inl OSError)"
proof (induction ports)
  case Nil
  then show ?case by simp
next
  case (Cons a ports)
  then show ?case
    using socket_bind_cases [of w a] by auto
qed

lemma find_port_loop_overflow:
  "find_port_loop w ports = Inl OverflowError \<longleftrightarrow>
     (\<exists>pre q post. ports = pre @ q # post \<and> socket_bind w q = Inl OverflowError \<and>
        (\<forall>r \<in> set pre. socket_bind w r = Inl OSError))"
proof (induction ports)
  case Nil
  then show ?case by simp
next
  case (Cons a ports)
  consider (ok) "socket_bind w a = Inr ()" | (busy) "socket_bind w a = Inl OSError"
    | (bad) "socket_bind w a = Inl OverflowError"
    using socket_bind_cases by blast
  then show ?case
  proof cases
    case ok
    then show ?thesis
      by (auto simp: Cons_eq_append_conv)
  next
    case busy
    have "(\<exists>pre q post. a # ports = pre @ q # post \<and> socket_bind w q = Inl OverflowError \<and>
        (\<forall>r \<in> set pre. socket_bind w r = Inl OSError)) \<longleftrightarrow>
      (\<exists>pre q post. ports = pre @ q # post \<and> socket_bind w q = Inl OverflowError \<and>
        (\<forall>r \<in> set pre. socket_bind w r = Inl OSError))" (is "?L \<longleftrightarrow> ?R")
    proof
      assume ?L
      then obtain pre q post where *: "a # ports = pre @ q # post"
        "socket_bind w q = Inl OverflowError"
        "\<forall>r \<in> set pre. socket_bind w r = Inl OSError" by blast
      show ?R
      proof (cases pre)
        case Nil
        with * busy show ?thesis by simp
      next
        case (Cons b pre')
        with * have "ports = pre' @ q # post" "\<forall>r \<in> set pre'. socket_bind w r = Inl OSError"
          by auto
        with * show ?thesis by blast
      qed
    next
      assume ?R
      then obtain pre q post where *: "ports = pre @ q # post"
        "socket_bind w q = Inl OverflowError"
        "\<forall>r \<in> set pre. socket_bind w r = Inl OSError" by blast
      with busy have "a # ports = (a # pre) @ q # post \<and> socket_bind w q = Inl OverflowError \<and>
        (\<forall>r \<in> set (a # pre). socket_bind w r = Inl OSError)" by simp
      then show ?L by blast
    qed
    with busy Cons.IH show ?thesis by simp
  next
    case bad
    have "a # ports = [] @ a # ports \<and> socket_bind w a = Inl OverflowError \<and>
        (\<forall>r \<in> set []. socket_bind w r = Inl OSError)"
      using bad by simp
    then have "\<exists>pre q post. a # ports = pre @ q # post \<and> socket_bind w q = Inl OverflowError \<and>
        (\<forall>r \<in> set pre. socket_bind w r = Inl OSError)" by blast
    with bad show ?thesis by simp
  qed
qed

lemma upto_split_at:
  "[i..j] = pre @ p # post \<Longrightarrow> set pre = {i..<p} \<and> i \<le> p \<and> p \<le> j"
proof -
  assume eq: "[i..j] = pre @ p # post"
  have mem: "p \<in> set [i..j]" unfolding eq by simp
  then have bounds: "i \<le> p" "p \<le> j" by auto
  then have "[i..j] = [i..p - 1] @ p # [p + 1..j]"
    using upto_split3 [of i p j] by simp
  then have eq2: "pre @ p # post = [i..p - 1] @ p # [p + 1..j]" using eq by simp
  have "distinct (pre @ p # post)" using eq [symmetric] by simp
  then have "p \<notin> set pre" "p \<notin> set post" by auto
  then have "pre = [i..p - 1]"
    using eq2 by (simp add: append_Cons_eq_iff)
  then show ?thesis using bounds by auto
qed

text \<open>
  Claim C2, as amended. The allocator never returns a port outside
  \<open>[start, start + attempts)\<close>, and the port it returns was bound at the check. From a
  non-negative start it returns exactly the first port of the sequence that can be bound.
  When the whole range lies within the port numbers 0..65535, it fails with the
  "no available port" RuntimeError exactly when every port of the range fails to bind.
  The search ends with an uncaught OverflowError exactly when it reaches a port of the
  range outside 0..65535, every port before it having failed to bind.
\<close>

theorem find_available_port_first_bindable:
  "(find_available_port w s n = Inr p \<longrightarrow>
      s \<le> p \<and> p < s + n \<and> socket_bind w p = Inr ()) \<and>
   (0 \<le> s \<longrightarrow>
      (find_available_port w s n = Inr p \<longleftrightarrow>
         s \<le> p \<and> p < s + n \<and> socket_bind w p = Inr () \<and>
         (\<forall>q. s \<le> q \<and> q < p \<longrightarrow> socket_bind w q \<noteq> Inr ()))) \<and>
   (0 \<le> s \<and> s + n \<le> 65536 \<longrightarrow>
      (find_available_port w s n = Inl RuntimeError_no_port \<longleftrightarrow>
         (\<forall>q. s \<le> q \<and> q < s + n \<longrightarrow> socket_bind w q \<noteq> Inr ()))) \<and>
   (find_available_port w s n = Inl OverflowError \<longleftrightarrow>
      (\<exists>q. s \<le> q \<and> q < s + n \<and> (q < 0 \<or> 65535 < q) \<and>
         (\<forall>r. s \<le> r \<and> r < q \<longrightarrow> socket_bind w r = Inl OSError)))"
proof -
  have in_range: "s \<le> p \<and> p < s + n \<and> socket_bind w p = Inr ()"
    if "find_available_port w s n = Inr p"
  proof -
    from that obtain pre post where *: "[s..s + n - 1] = pre @ p # post"
      "socket_bind w p = Inr ()"
      unfolding find_available_port_def find_port_loop_Inr by blast
    from upto_split_at [OF *(1)] * show ?thesis by auto
  qed
  have first: "find_available_port w s n = Inr p \<longleftrightarrow>
         s \<le> p \<and> p < s + n \<and> socket_bind w p = Inr () \<and>
         (\<forall>q. s \<le> q \<and> q < p \<longrightarrow> socket_bind w q \<noteq> Inr ())" if s: "0 \<le> s"
  proof
    assume "find_available_port w s n = Inr p"
    then obtain pre post where *: "[s..s + n - 1] = pre @ p # post" "socket_bind w p = Inr ()"
      "\<forall>q \<in> set pre. socket_bind w q = Inl OSError"
      unfolding find_available_port_def find_port_loop_Inr by blast
    from upto_split_at [OF *(1)] * show "s \<le> p \<and> p < s + n \<and> socket_bind w p = Inr () \<and>
         (\<forall>q. s \<le> q \<and> q < p \<longrightarrow> socket_bind w q \<noteq> Inr ())"
      by auto
  next
    assume a: "s \<le> p \<and> p < s + n \<and> socket_bind w p = Inr () \<and>
         (\<forall>q. s \<le> q \<and> q < p \<longrightarrow> socket_bind w q \<noteq> Inr ())"
    then have p: "p \<le> 65535"
      by (auto simp: socket_bind_def split: if_splits)
    have split: "[s..s + n - 1] = [s..p - 1] @ p # [p + 1..s + n - 1]"
      using a upto_split3 [of s p "s + n - 1"] by simp
    have "\<forall>q \<in> set [s..p - 1]. socket_bind w q = Inl OSError"
    proof
      fix q assume "q \<in> set [s..p - 1]"
      then have q: "s \<le> q" "q < p" by auto
      with a have "socket_bind w q \<noteq> Inr ()" by blast
      moreover have "socket_bind w q \<noteq> Inl OverflowError"
        using q s p by (simp add: socket_bind_def)
      ultimately show "socket_bind w q = Inl OSError"
        using socket_bind_cases [of w q] by blast
    qed
    with split a show "find_available_port w s n = Inr p"
      unfolding find_available_port_def find_port_loop_Inr by blast
  qed
  have exhausted: "find_available_port w s n = Inl RuntimeError_no_port \<longleftrightarrow>
         (\<forall>q. s \<le> q \<and> q < s + n \<longrightarrow> socket_bind w q \<noteq> Inr ())"
    if r: "0 \<le> s \<and> s + n \<le> 65536"
  proof -
    have "socket_bind w q \<noteq> Inr () \<longleftrightarrow> socket_bind w q = Inl OSError"
      if "s \<le> q" "q < s + n" for q
      using that r by (simp add: socket_bind_def)
    then show ?thesis
      unfolding find_available_port_def find_port_loop_no_port by auto
  qed
  have overflow: "find_available_port w s n = Inl OverflowError \<longleftrightarrow>
      (\<exists>q. s \<le> q \<and> q < s + n \<and> (q < 0 \<or> 65535 < q) \<and>
         (\<forall>r. s \<le> r \<and> r < q \<longrightarrow> socket_bind w r = Inl OSError))"
  proof
    assume "find_available_port w s n = Inl OverflowError"
    then obtain pre q post where *: "[s..s + n - 1] = pre @ q # post"
      "socket_bind w q = Inl OverflowError" "\<forall>r \<in> set pre. socket_bind w r = Inl OSError"
      unfolding find_available_port_def find_port_loop_overflow by blast
    from *(2) have "q < 0 \<or> 65535 < q"
      by (auto simp: socket_bind_def split: if_splits)
    with upto_split_at [OF *(1)] *(3)
    show "\<exists>q. s \<le> q \<and> q < s + n \<and> (q < 0 \<or> 65535 < q) \<and>
         (\<forall>r. s \<le> r \<and> r < q \<longrightarrow> socket_bind w r = Inl OSError)"
      by auto
  next
    assume "\<exists>q. s \<le> q \<and> q < s + n \<and> (q < 0 \<or> 65535 < q) \<and>
         (\<forall>r. s \<le> r \<and> r < q \<longrightarrow> socket_bind w r = Inl OSError)"
    then obtain q where q: "s \<le> q" "q < s + n" "q < 0 \<or> 65535 < q"
      "\<forall>r. s \<le> r \<and> r < q \<longrightarrow> socket_bind w r = Inl OSError" by blast
    have split: "[s..s + n - 1] = [s..q - 1] @ q # [q + 1..s + n - 1]"
      using q(1, 2) upto_split3 [of s q "s + n - 1"] by simp
    have "socket_bind w q = Inl OverflowError"
      using q(3) by (auto simp: socket_bind_def)
    moreover have "\<forall>r \<in> set [s..q - 1]. socket_bind w r = Inl OSError"
      using q(4) by auto
    ultimately show "find_available_port w s n = Inl OverflowError"
      unfolding find_available_port_def find_port_loop_overflow using split by blast
  qed
  from in_range first exhausted overflow show ?thesis by blast
qed

text \<open>
  The theorem at the default range 8080..8179: with only port 8083 free the allocator
  returns 8083; with no port free it raises the RuntimeError.
\<close>

theorem find_available_port_first_bindable_witness:
  "find_available_port world_8083 8080 100 = Inr 8083 \<and>
   (0::int) \<le> 8080 \<and> (8080::int) + 100 \<le> 65536 \<and>
   socket_bind world_8083 8083 = Inr () \<and>
   find_available_port world_busy 8080 100 = Inl RuntimeError_no_port"
proof -
  have a: "(0::int) \<le> 8080" and b: "(0::int) \<le> 8080 \<and> (8080::int) + 100 \<le> 65536" by simp_all
  have c: "(8080::int) \<le> 8083 \<and> (8083::int) < 8080 + 100 \<and> socket_bind world_8083 8083 = Inr () \<and>
         (\<forall>q. 8080 \<le> q \<and> q < 8083 \<longrightarrow> socket_bind world_8083 q \<noteq> Inr ())"
    by (simp add: socket_bind_def world_8083_def world_busy_def)
  have d: "\<forall>q. 8080 \<le> q \<and> q < 8080 + 100 \<longrightarrow> socket_bind world_busy q \<noteq> Inr ()"
    by (simp add: socket_bind_def world_busy_def)
  from find_available_port_first_bindable [of world_8083 8080 100 8083] a c
  have 1: "find_available_port world_8083 8080 100 = Inr 8083" by blast
  from find_available_port_first_bindable [of world_busy 8080 100 8083] b d
  have 2: "find_available_port world_busy 8080 100 = Inl RuntimeError_no_port" by blast
  from 1 2 a b c show ?thesis by blast
qed

text \<open>
  Claim C2 as stated fails where the range leaves the port numbers: from 65535 with two
  attempts and every port busy, the probe of 65536 raises OverflowError, which the loop
  does not catch, so the failure is not the "no available port" RuntimeError although no
  port of the range could be bound.
\<close>

theorem find_available_port_overflow_counterexample:
  "socket_bind world_busy 65535 \<noteq> Inr () \<and> socket_bind world_busy 65536 \<noteq> Inr () \<and>
   find_available_port world_busy 65535 2 = Inl OverflowError \<and>
   find_available_port world_busy 65535 2 \<noteq> Inl RuntimeError_no_port"
  by (simp add: find_available_port_def socket_bind_def world_busy_def upto.simps)

section \<open>File system: what an operation leaves at each path\<close>

lemma lookup_filter:
  "lookup (filter (\<lambda>e. P (fst e)) files) p = (if P p then lookup files p else None)"
  unfolding lookup_def by (induction files) auto



lemma lookup_filter_neq:
  "lookup (filter (\<lambda>e. fst e \<noteq> q) files) p = (if p = q then None else lookup files p)"
  using lookup_filter [of "\<lambda>k. k \<noteq> q" files p] by simp










lemma write_text_Inl: "write_text files p text = Inl e \<Longrightarrow> lookup files p \<noteq> Some (File c)"
  by (auto simp: write_text_def split: option.splits node.splits)



lemma rmtree_Inl: "rmtree files p = Inl e \<Longrightarrow> lookup files p \<noteq> Some Dir"
  by (auto simp: rmtree_def split: option.splits node.splits)


lemma unlink_lookup:
  assumes "unlink files p = Inr files1"
  shows "lookup files1 q = (if q = p then None else lookup files q)"
  using assms
  by (auto simp: unlink_def lookup_filter_neq split: option.splits node.splits)





text \<open>In a well-formed file system nothing lies below a path that does not exist.\<close>

lemma wf_fs_parent:
  assumes "wf_fs files" and "lookup files p = Some n" and "p \<noteq> []"
  shows "lookup files (butlast p) = Some Dir"
proof -
  from assms(2) have "(p, n) \<in> set files"
    unfolding lookup_def by (rule map_of_SomeD)
  with assms(1, 3) show ?thesis
    by (auto simp: wf_fs_def list_all_iff)
qed

lemma wf_fs_below_absent:
  assumes "wf_fs files" and "lookup files p = None"
  shows "lookup files (p @ r) = None"
proof (induction r rule: rev_induct)
  case Nil
  then show ?case using assms by simp
next
  case (snoc c r)
  show ?case
  proof (rule ccontr)
    assume "lookup files (p @ r @ [c]) \<noteq> None"
    then obtain n where "lookup files (p @ r @ [c]) = Some n" by auto
    from wf_fs_parent [OF assms(1) this] have "lookup files (p @ r) = Some Dir"
      by (simp add: butlast_append)
    with snoc show False by simp
  qed
qed

lemma wf_fs_below_file:
  assumes "wf_fs files" and "lookup files p = Some (File c)" and "r \<noteq> []"
  shows "lookup files (p @ r) = None"
proof -
  obtain x xs where r: "r = x # xs" using assms(3) by (cases r) auto
  have "lookup files (p @ [x]) = None"
  proof (rule ccontr)
    assume "lookup files (p @ [x]) \<noteq> None"
    then obtain n where "lookup files (p @ [x]) = Some n" by auto
    from wf_fs_parent [OF assms(1) this] assms(2) show False by simp
  qed
  from wf_fs_below_absent [OF assms(1) this, of xs] show ?thesis by (simp add: r)
qed

section \<open>Text: printing a number and reading it back\<close>

lemma digit_char_props:
  assumes "d < 10"
  shows "is_digit (digit_char d)" and "digit_val (digit_char d) = d"
    and "digit_char d = CHR ''0'' \<longleftrightarrow> d = 0"
proof -
  from assms consider "d = 0" | "d = 1" | "d = 2" | "d = 3" | "d = 4" | "d = 5"
    | "d = 6" | "d = 7" | "d = 8" | "d = 9" by atomize_elim arith
  then have "is_digit (digit_char d) \<and> digit_val (digit_char d) = d \<and>
      (digit_char d = CHR ''0'' \<longleftrightarrow> d = 0)"
    by cases (simp_all add: digit_char_def is_digit_def digit_val_def)
  then show "is_digit (digit_char d)" and "digit_val (digit_char d) = d"
    and "digit_char d = CHR ''0'' \<longleftrightarrow> d = 0" by simp_all
qed

lemma show_nat_digits: "list_all is_digit (show_nat n)"
proof (induction n rule: show_nat.induct)
  case (1 n)
  show ?case
  proof (cases "n < 10")
    case True
    then show ?thesis by (simp add: show_nat.simps [of n] digit_char_props)
  next
    case False
    then show ?thesis using 1 by (simp add: show_nat.simps [of n] digit_char_props)
  qed
qed

lemma show_nat_nonempty: "show_nat n \<noteq> []"
  by (simp add: show_nat.simps [of n])

lemma read_nat_snoc: "read_nat (ds @ [c]) = 10 * read_nat ds + digit_val c"
  by (simp add: read_nat_def)

lemma read_nat_show_nat: "read_nat (show_nat n) = n"
proof (induction n rule: show_nat.induct)
  case (1 n)
  show ?case
  proof (cases "n < 10")
    case True
    then show ?thesis
      by (simp add: show_nat.simps [of n] read_nat_def digit_char_props)
  next
    case False
    then have "read_nat (show_nat (n div 10)) = n div 10" using 1 by simp
    then show ?thesis
      using False by (simp add: show_nat.simps [of n] read_nat_snoc digit_char_props)
  qed
qed

lemma show_nat_hd: "hd (show_nat n) = CHR ''0'' \<Longrightarrow> n = 0"
proof (induction n rule: show_nat.induct)
  case (1 n)
  show ?case
  proof (cases "n < 10")
    case True
    then show ?thesis using "1.prems"
      by (simp add: show_nat.simps [of n] digit_char_props)
  next
    case False
    then have "hd (show_nat n) = hd (show_nat (n div 10))"
      by (simp add: show_nat.simps [of n] show_nat_nonempty)
    then have "n div 10 = 0" using 1 False by simp
    then show ?thesis using False by simp
  qed
qed

lemma show_nat_leading_zero: "1 < length (show_nat n) \<Longrightarrow> hd (show_nat n) \<noteq> CHR ''0''"
proof
  assume len: "1 < length (show_nat n)" and zero: "hd (show_nat n) = CHR ''0''"
  from zero have "n = 0" by (rule show_nat_hd)
  then show False using len by (simp add: show_nat.simps [of 0])
qed

lemma takeWhile_digits:
  assumes "rest = [] \<or> \<not> is_digit (hd rest)"
  shows "takeWhile is_digit (show_nat n @ rest) = show_nat n"
    and "dropWhile is_digit (show_nat n @ rest) = rest"
proof -
  have all: "\<forall>c \<in> set (show_nat n). is_digit c"
    using show_nat_digits [of n] by (simp add: list_all_iff)
  have "takeWhile is_digit rest = []" and "dropWhile is_digit rest = rest"
    using assms by (cases rest; simp)+
  with all show "takeWhile is_digit (show_nat n @ rest) = show_nat n"
    and "dropWhile is_digit (show_nat n @ rest) = rest"
    by (simp_all add: takeWhile_append2 dropWhile_append2)
qed

lemma show_nat_not_minus: "hd (show_nat n) \<noteq> CHR ''-''"
proof -
  have "show_nat n \<noteq> []" by (rule show_nat_nonempty)
  then have "hd (show_nat n) \<in> set (show_nat n)" by simp
  then have "is_digit (hd (show_nat n))"
    using show_nat_digits [of n] by (simp add: list_all_iff)
  then show ?thesis by (auto simp: is_digit_def)
qed

lemma scan_int_show_int:
  assumes "rest = [] \<or> (\<not> is_digit (hd rest) \<and> hd rest \<notin> set ''.eE'')"
  shows "scan_int (show_int i @ rest) = Some (i, rest)"
proof (cases "i < 0")
  case True
  define n where "n = nat (- i)"
  have s: "show_int i @ rest = CHR ''-'' # (show_nat n @ rest)"
    using True by (simp add: show_int_def n_def)
  have tw: "takeWhile is_digit (show_nat n @ rest) = show_nat n"
    and dw: "dropWhile is_digit (show_nat n @ rest) = rest"
    using takeWhile_digits [of rest n] assms by auto
  have "- int (read_nat (show_nat n)) = i"
    using True by (simp add: read_nat_show_nat n_def)
  then show ?thesis
    unfolding s scan_int_def using assms show_nat_leading_zero [of n]
    by (auto simp: Let_def tw dw show_nat_nonempty)
next
  case False
  define n where "n = nat i"
  have s: "show_int i @ rest = show_nat n @ rest"
    using False by (simp add: show_int_def n_def)
  have tw: "takeWhile is_digit (show_nat n @ rest) = show_nat n"
    and dw: "dropWhile is_digit (show_nat n @ rest) = rest"
    using takeWhile_digits [of rest n] assms by auto
  have hd: "hd (show_nat n @ rest) \<noteq> CHR ''-''"
    using show_nat_not_minus [of n] by (simp add: show_nat_nonempty)
  have "int (read_nat (show_nat n)) = i"
    using False by (simp add: read_nat_show_nat n_def)
  then show ?thesis
    unfolding s scan_int_def using assms show_nat_leading_zero [of n] hd
    by (auto simp: Let_def tw dw show_nat_nonempty)
qed

lemma show_int_inj: "show_int i = show_int j \<longleftrightarrow> i = j"
proof
  assume eq: "show_int i = show_int j"
  have a: "scan_int (show_int i) = Some (i, [])" and b: "scan_int (show_int j) = Some (j, [])"
    using scan_int_show_int [of "[]" i] scan_int_show_int [of "[]" j] by simp_all
  from a have "scan_int (show_int j) = Some (i, [])" unfolding eq .
  with b show "i = j" by simp
qed simp

section \<open>JSON: a dumped dictionary loads as itself\<close>

lemma hex_char_val: "d < 16 \<Longrightarrow> hex_val (hex_char d) = Some d"
proof -
  assume "d < 16"
  then consider "d = 0" | "d = 1" | "d = 2" | "d = 3" | "d = 4" | "d = 5" | "d = 6" | "d = 7"
    | "d = 8" | "d = 9" | "d = 10" | "d = 11" | "d = 12" | "d = 13" | "d = 14" | "d = 15"
    by atomize_elim arith
  then show ?thesis
    by cases (simp_all add: hex_char_def hex_val_def)
qed

lemma unicode_escape_control:
  assumes "(of_char c :: nat) < 32"
  shows "unicode_escape (CHR ''0'') (CHR ''0'') (hex_char (of_char c div 16))
           (hex_char (of_char c mod 16)) = Some c"
proof -
  let ?n = "of_char c :: nat"
  have hi: "hex_val (hex_char (?n div 16)) = Some (?n div 16)"
    using assms by (intro hex_char_val) simp
  have lo: "hex_val (hex_char (?n mod 16)) = Some (?n mod 16)"
    by (intro hex_char_val) simp
  have zero: "hex_val (CHR ''0'') = Some 0" by (simp add: hex_val_def)
  have "16 * (?n div 16) + ?n mod 16 = ?n" by simp
  then show ?thesis
    using assms by (simp add: unicode_escape_def hi lo zero)
qed

lemma scan_string_escape_char:
  "scan_string (escape_char c @ s) = map_option (\<lambda>(x, rest). (c # x, rest)) (scan_string s)"
proof -
  consider (quote) "c = CHR 0x22" | (backslash) "c = CHR 0x5C" | (nl) "c = CHR 0x0A"
    | (cr) "c = CHR 0x0D" | (tab) "c = CHR 0x09" | (bs) "c = CHR 0x08" | (ff) "c = CHR 0x0C"
    | (control) "c \<noteq> CHR 0x22" "c \<noteq> CHR 0x5C" "c \<noteq> CHR 0x0A" "c \<noteq> CHR 0x0D" "c \<noteq> CHR 0x09"
        "c \<noteq> CHR 0x08" "c \<noteq> CHR 0x0C" "(of_char c :: nat) < 32"
    | (plain) "c \<noteq> CHR 0x22" "c \<noteq> CHR 0x5C" "\<not> (of_char c :: nat) < 32"
    by fastforce
  then show ?thesis
  proof cases
    case control
    then show ?thesis
      by (simp add: escape_char_def unicode_escape_control)
  next
    case plain
    then have "escape_char c = [c]"
      by (auto simp: escape_char_def)
    with plain show ?thesis by simp
  qed (simp_all add: escape_char_def simple_escape_def)
qed

lemma scan_string_escaped:
  "scan_string (concat (map escape_char x) @ CHR 0x22 # rest) = Some (x, rest)"
  by (induction x) (simp_all add: scan_string_escape_char)

lemma scan_string_json_string:
  "json_string x @ rest = CHR 0x22 # concat (map escape_char x) @ CHR 0x22 # rest"
  by (simp add: json_string_def)

lemma show_int_head:
  "show_int i \<noteq> [] \<and> hd (show_int i) \<noteq> CHR 0x22 \<and> \<not> is_ws (hd (show_int i))"
proof -
  have d: "is_digit (hd (show_nat n))" for n
  proof -
    have "hd (show_nat n) \<in> set (show_nat n)" by (simp add: show_nat_nonempty)
    then show ?thesis using show_nat_digits [of n] by (simp add: list_all_iff)
  qed
  have "c \<noteq> CHR 0x22 \<and> \<not> is_ws c" if "is_digit c" for c
    using that by (auto simp: is_digit_def is_ws_def)
  with d show ?thesis
    by (simp add: show_int_def show_nat_nonempty is_ws_def)
qed

text \<open>What may follow a member: the comma of the next one, or the line break of the end.\<close>

definition after_value :: "string \<Rightarrow> bool" where
  "after_value rest = (rest \<noteq> [] \<and> (hd rest = CHR '','' \<or> hd rest = CHR 0x0A))"

lemma scan_value_json_value:
  assumes "after_value rest"
  shows "scan_value (json_value v @ rest) = Some (v, rest)"
proof (cases v)
  case (JStr x)
  then show ?thesis
    by (simp add: scan_value_def json_string_def scan_string_escaped)
next
  case (JInt i)
  have follow: "rest = [] \<or> (\<not> is_digit (hd rest) \<and> hd rest \<notin> set ''.eE'')"
    using assms by (auto simp: after_value_def is_digit_def)
  obtain c cs where s: "show_int i = c # cs" and c: "c \<noteq> CHR 0x22"
    using show_int_head [of i] by (cases "show_int i") auto
  have "scan_value (show_int i @ rest) =
      map_option (\<lambda>(i, rest). (JInt i, rest)) (scan_int (show_int i @ rest))"
    by (simp add: scan_value_def s c)
  then show ?thesis
    using JInt scan_int_show_int [OF follow, of i] by simp
qed

lemma skip_ws_simps:
  "skip_ws (CHR '' '' # s) = skip_ws s"
  "skip_ws (CHR 0x0A # s) = skip_ws s"
  "skip_ws (CHR 0x22 # s) = CHR 0x22 # s"
  "skip_ws (CHR '':'' # s) = CHR '':'' # s"
  "skip_ws (CHR '','' # s) = CHR '','' # s"
  "skip_ws (CHR ''}'' # s) = CHR ''}'' # s"
  "skip_ws (CHR ''{'' # s) = CHR ''{'' # s"
  "skip_ws [] = []"
  by (simp_all add: skip_ws_def is_ws_def)

lemma skip_ws_json_value: "skip_ws (json_value v @ rest) = json_value v @ rest"
proof (cases v)
  case (JStr x)
  then show ?thesis by (simp add: json_string_def skip_ws_simps)
next
  case (JInt i)
  obtain c cs where s: "show_int i = c # cs" and c: "\<not> is_ws c"
    using show_int_head [of i] by (cases "show_int i") auto
  then show ?thesis using JInt by (simp add: skip_ws_def)
qed

lemma scan_member_json_member:
  assumes "after_value rest"
  shows "scan_member (json_member kv @ rest) = Some (kv, skip_ws rest)"
proof -
  obtain k v where kv: "kv = (k, v)" by (cases kv)
  have shape: "json_member kv @ rest =
      CHR '' '' # CHR '' '' # CHR 0x22 # concat (map escape_char k) @
        CHR 0x22 # (CHR '':'' # CHR '' '' # (json_value v @ rest))"
    by (simp add: json_member_def json_string_def kv)
  show ?thesis
    unfolding shape scan_member_def
    by (simp add: skip_ws_simps scan_string_escaped skip_ws_json_value
        scan_value_json_value [OF assms] kv)
qed

lemma scan_members_json_members:
  "d \<noteq> [] \<Longrightarrow> scan_members (json_members d @ [CHR 0x0A, CHR ''}'']) = Some d"
proof (induction d rule: json_members.induct)
  case 1
  then show ?case by simp
next
  case (2 kv)
  have "scan_member (json_member kv @ [CHR 0x0A, CHR ''}'']) = Some (kv, [CHR ''}''])"
    using scan_member_json_member [of "[CHR 0x0A, CHR ''}'']" kv]
    by (simp add: after_value_def skip_ws_simps)
  then show ?case
    by (simp add: scan_members.simps [of "json_member kv @ [CHR 0x0A, CHR ''}'']"] skip_ws_simps)
next
  case (3 kv kv' kvs)
  let ?rest = "CHR '','' # CHR 0x0A # (json_members (kv' # kvs) @ [CHR 0x0A, CHR ''}''])"
  have member: "scan_member (json_member kv @ ?rest) = Some (kv, ?rest)"
    using scan_member_json_member [of ?rest kv]
    by (simp add: after_value_def skip_ws_simps)
  have IH: "scan_members (json_members (kv' # kvs) @ [CHR 0x0A, CHR ''}'']) = Some (kv' # kvs)"
    using 3 by simp
  have "scan_members (CHR 0x0A # (json_members (kv' # kvs) @ [CHR 0x0A, CHR ''}''])) =
      scan_members (json_members (kv' # kvs) @ [CHR 0x0A, CHR ''}''])"
    by (simp add: scan_members.simps [of "CHR 0x0A # _"]
        scan_members.simps [of "json_members (kv' # kvs) @ _"] scan_member_def skip_ws_simps)
  with IH member show ?case
    by (simp add: scan_members.simps [of "json_member kv @ ?rest"])
qed

lemma json_loads_dumps: "json_loads (json_dumps d) = Some d"
proof (cases "d = []")
  case True
  then show ?thesis by (simp add: json_loads_def json_dumps_def skip_ws_simps)
next
  case False
  then obtain kv kvs where d: "d = kv # kvs" by (cases d) auto
  have "\<exists>r. skip_ws (json_members d @ [CHR 0x0A, CHR ''}'']) = CHR 0x22 # r"
    by (cases kvs) (simp_all add: d json_member_def json_string_def skip_ws_simps)
  then obtain r where ws: "skip_ws (json_members d @ [CHR 0x0A, CHR ''}'']) = CHR 0x22 # r"
    by blast
  have "scan_members (CHR 0x0A # (json_members d @ [CHR 0x0A, CHR ''}''])) =
      scan_members (json_members d @ [CHR 0x0A, CHR ''}''])"
    by (simp add: scan_members.simps [of "CHR 0x0A # _"]
        scan_members.simps [of "json_members d @ _"] scan_member_def skip_ws_simps)
  then show ?thesis
    using False scan_members_json_members [OF False]
    by (simp add: json_loads_def json_dumps_def skip_ws_simps ws)
qed

section \<open>Paths: joining a plain name, walking existing directories\<close>














section \<open>The scripts on the concrete host\<close>





lemma world_site_fields:
  "fs world_site = site_fs" "cwd world_site = [''work'']" "cmds world_site = []"
  "stdout world_site = []"
  "bindable world_site = (\<lambda>p. p \<notin> {8080, 8081, 8082})" "time_now world_site = 1700000000.5"
  "docker_ps world_site = (\<lambda>_. ''nginx-web'')" "outbound_ip world_site = Some ''192.168.1.10''"
  "strftime_now world_site = ''2023-11-14 22:13:20''" "exit_code world_site = (\<lambda>_ _. 0)"
  by (simp_all add: world_site_def)









section \<open>Deployment ids\<close>

text \<open>
  Claim C8, as amended. The id is the clock reading in whole seconds: two deployment
  operations generate the same id exactly when their clock readings truncate to the same
  second. Under one base directory the staged directory, the configuration file and the
  record file are determined by the id, so operations with different ids share none of
  the three.
\<close>

theorem generate_project_id_same_second:
  "(generate_project_id w1 = generate_project_id w2 \<longleftrightarrow>
      py_int (time_now w1) = py_int (time_now w2)) \<and>
   (generate_project_id w1 \<noteq> generate_project_id w2 \<longrightarrow>
      base @ [''html'', generate_project_id w1] \<noteq> base @ [''html'', generate_project_id w2] \<and>
      base @ [''config'', ''conf.d'', generate_project_id w1 @ ''.conf''] \<noteq>
        base @ [''config'', ''conf.d'', generate_project_id w2 @ ''.conf''] \<and>
      record_file base (generate_project_id w1) \<noteq> record_file base (generate_project_id w2))"
  by (simp add: generate_project_id_def show_int_inj record_file_def)

text \<open>
  The theorem at two readings one second apart: the ids, and with them the three paths
  under \<^verbatim>\<open>/srv/nginx\<close>, differ.
\<close>

theorem generate_project_id_same_second_witness:
  "generate_project_id world_site \<noteq> generate_project_id (world_site\<lparr>time_now := 1700000001.5\<rparr>) \<and>
   record_file [''srv'', ''nginx''] (generate_project_id world_site) \<noteq>
     record_file [''srv'', ''nginx''] (generate_project_id (world_site\<lparr>time_now := 1700000001.5\<rparr>))"
proof -
  have "py_int (time_now world_site) \<noteq> py_int (time_now (world_site\<lparr>time_now := 1700000001.5\<rparr>))"
    by (simp add: py_int_def world_site_def)
  with generate_project_id_same_second
    [of world_site "world_site\<lparr>time_now := 1700000001.5\<rparr>" "[''srv'', ''nginx'']"]
  show ?thesis by blast
qed

text \<open>
  Claim C8 as stated fails: two operations whose clock readings, 1700000000.2 and
  1700000000.7, fall into the same second generate the same id.
\<close>

theorem generate_project_id_counterexample:
  "time_now (world_site\<lparr>time_now := 1700000000.2\<rparr>) \<noteq> time_now (world_site\<lparr>time_now := 1700000000.7\<rparr>) \<and>
   generate_project_id (world_site\<lparr>time_now := 1700000000.2\<rparr>) =
     generate_project_id (world_site\<lparr>time_now := 1700000000.7\<rparr>)"
  by (simp add: generate_project_id_def py_int_def)

section \<open>Reload: deploy.py against cleanup.py\<close>

lemma run_checked_cmds: "cmds (snd (run_checked w c)) = cmds w @ [c]"
  by (simp add: run_checked_def Let_def)


text \<open>
  Claim C5, as amended. The reload step of \<^verbatim>\<open>cleanup_deployment\<close> observes nothing:
  it always sends the reload signal and never starts the topology. It is the same
  operation as \<^verbatim>\<open>reload_nginx\<close> of \<^verbatim>\<open>deploy.py\<close> exactly in the branch where the
  compose file exists and \<^verbatim>\<open>docker ps\<close> shows the container. \<^verbatim>\<open>reload_nginx\<close>
  itself starts the topology when the container is not shown, and raises without the
  compose file.
\<close>

theorem cleanup_reload_signals_only:
  "cmds (snd (cleanup_reload w)) = cmds w @ [NginxReload] \<and>
   (path_exists (fs w) (base @ [''docker-compose.yml'']) \<and>
    sublist ''nginx-web'' (docker_ps w (cmds w)) \<longrightarrow>
      cleanup_reload w = reload_nginx w base) \<and>
   (path_exists (fs w) (base @ [''docker-compose.yml'']) \<and>
    \<not> sublist ''nginx-web'' (docker_ps w (cmds w)) \<longrightarrow>
      cmds (snd (reload_nginx w base)) = cmds w @ [ComposeUp base]) \<and>
   (\<not> path_exists (fs w) (base @ [''docker-compose.yml'']) \<longrightarrow>
      reload_nginx w base = (Inl RuntimeError_no_compose, w))"
  by (simp add: cleanup_reload_def reload_nginx_def run_checked_cmds print_def Let_def)

text \<open>
  The theorem on the host of \<open>world_site\<close>, where the compose file exists and the
  container runs: both scripts perform the same reload.
\<close>

theorem cleanup_reload_signals_only_witness:
  "path_exists (fs world_site) ([''srv'', ''nginx''] @ [''docker-compose.yml'']) \<and>
   sublist ''nginx-web'' (docker_ps world_site (cmds world_site)) \<and>
   cleanup_reload world_site = reload_nginx world_site [''srv'', ''nginx''] \<and>
   cmds (snd (cleanup_reload world_site)) = [NginxReload]"
proof -
  have running: "path_exists (fs world_site) ([''srv'', ''nginx''] @ [''docker-compose.yml'']) \<and>
      sublist ''nginx-web'' (docker_ps world_site (cmds world_site))"
    by (simp add: world_site_def site_fs_def path_exists_def lookup_def)
  note inst = cleanup_reload_signals_only [of world_site "[''srv'', ''nginx'']"]
  from inst running have same: "cleanup_reload world_site = reload_nginx world_site [''srv'', ''nginx'']"
    by blast
  have "cmds world_site = []" by (simp add: world_site_def)
  with inst have "cmds (snd (cleanup_reload world_site)) = [NginxReload]" by simp
  with running same show ?thesis by blast
qed

text \<open>
  Claim C5 as stated fails with the container stopped: \<^verbatim>\<open>reload_nginx\<close> issues the
  start command, the reload step of the cleanup issues the reload signal.
\<close>

theorem cleanup_reload_counterexample:
  "cmds (snd (reload_nginx world_stopped [''srv'', ''nginx''])) = [ComposeUp [''srv'', ''nginx'']] \<and>
   cmds (snd (cleanup_reload world_stopped)) = [NginxReload] \<and>
   cleanup_reload world_stopped \<noteq> reload_nginx world_stopped [''srv'', ''nginx'']"
proof -
  have a: "cmds (snd (reload_nginx world_stopped [''srv'', ''nginx''])) = [ComposeUp [''srv'', ''nginx'']]"
    by (simp add: reload_nginx_def run_checked_cmds print_def world_stopped_def world_site_def
        site_fs_def path_exists_def lookup_def)
  have b: "cmds (snd (cleanup_reload world_stopped)) = [NginxReload]"
    by (simp add: cleanup_reload_def run_checked_cmds print_def world_stopped_def world_site_def)
  from a b have "cleanup_reload world_stopped \<noteq> reload_nginx world_stopped [''srv'', ''nginx'']"
    by auto
  with a b show ?thesis by simp
qed

section \<open>deploy_frontend: the steps and what each leaves on disk\<close>






lemma create_nginx_conf_other_fields:
  assumes "create_nginx_conf w project_id port base = (r, w')"
  shows "\<exists>f. w' = w\<lparr>fs := f\<rparr>"
  using assms
  by (auto simp: create_nginx_conf_def Let_def split: sum.splits intro: exI [of _ "fs w"])







section \<open>Config generator\<close>





section \<open>Staging\<close>









section \<open>Exit status of the cleanup script\<close>

text \<open>
  Claim C4 at a concrete input: on the host of \<open>world_site\<close>, which has no record of
  \<^verbatim>\<open>project-1\<close> (it has no directory \<^verbatim>\<open>deployments\<close> at all), the command
  \<^verbatim>\<open>cleanup.py project-1 /srv/nginx\<close> prints that the project does not exist and
  leaves the file system, and the commands issued, as they were; but the process ends
  with status 0, not 1: \<^verbatim>\<open>main\<close> drops the \<^verbatim>\<open>False\<close> that
  \<^verbatim>\<open>cleanup_deployment\<close> returns.
\<close>

theorem cleanup_main_missing_record_status:
  "cleanup_deployment world_site ''project-1'' (Some (Path ''/srv/nginx'')) =
     (False, world_site\<lparr>stdout := [Msg_project_missing ''project-1'']\<rparr>) \<and>
   cleanup_main world_site [''project-1'', ''/srv/nginx''] =
     (0, world_site\<lparr>stdout := [Msg_project_missing ''project-1'']\<rparr>)"
proof -
  have info_file: "truediv (truediv (base_path (Some (Path ''/srv/nginx''))) ''deployments'')
      ''project-1.json'' =
      PurePath True [''srv'', ''nginx'', ''deployments'', ''project-1.json'']"
    by (simp add: truediv_def base_path_def Path_def parts_of_def)
  have walk: "os_walk site_fs [] [''srv'', ''nginx'', ''deployments'', ''project-1.json''] =
      Inl FileNotFoundError"
    by (simp add: lookup_def site_fs_def)
  then have absent:
    "\<not> exists_at site_fs [''srv'', ''nginx'', ''deployments'', ''project-1.json'']"
    unfolding exists_at_def by simp
  have missing: "cleanup_deployment world_site ''project-1'' (Some (Path ''/srv/nginx'')) =
     (False, world_site\<lparr>stdout := [Msg_project_missing ''project-1'']\<rparr>)"
    by (simp add: cleanup_deployment_def info_file os_parts_def absent
        world_site_fields print_def)
  then show ?thesis
    by (simp add: cleanup_main_def)
qed

end
